theory Spec2Isabelle
  imports Main
begin

section \<open>Calendar dates\<close>

text \<open>
  The application handles \<^verbatim>\<open>datetime.date\<close> values: it compares them, adds and subtracts
  whole days (\<^verbatim>\<open>timedelta(days=n)\<close>), reads \<^verbatim>\<open>year\<close> and \<^verbatim>\<open>month\<close>, replaces the day
  and asks for the weekday. A date is the triple Python stores; the functions below are the
  proleptic Gregorian calendar of the \<^verbatim>\<open>datetime\<close> module. Date arithmetic that leaves the
  years 1 to 9999 raises \<^verbatim>\<open>OverflowError\<close> in Python and is \<open>None\<close> here.
\<close>

record date =
  year :: int
  month :: int
  day :: int

definition is_leap :: "int \<Rightarrow> bool" where
  "is_leap y = (y mod 4 = 0 \<and> (y mod 400 = 0 \<or> y mod 100 \<noteq> 0))"

definition days_in_month :: "int \<Rightarrow> int \<Rightarrow> int" where
  "days_in_month y m =
     (if m = 2 then (if is_leap y then 29 else 28)
      else if m = 4 \<or> m = 6 \<or> m = 9 \<or> m = 11 then 30 else 31)"




definition prev_day :: "date \<Rightarrow> date option" where
  "prev_day d =
     (if 1 < day d then Some (d\<lparr>day := day d - 1\<rparr>)
      else if 1 < month d
        then Some (d\<lparr>month := month d - 1, day := days_in_month (year d) (month d - 1)\<rparr>)
      else if 1 < year d then Some (d\<lparr>year := year d - 1, month := 12, day := 31\<rparr>)
      else None)"


fun sub_days :: "date \<Rightarrow> nat \<Rightarrow> date option" where
  "sub_days d 0 = Some d"
| "sub_days d (Suc n) = (case prev_day d of None \<Rightarrow> None | Some e \<Rightarrow> sub_days e n)"





section \<open>Strings\<close>

text \<open>
  A Python \<^verbatim>\<open>str\<close> is a sequence of Unicode code points. The text typed into the
  registration form is modelled so, as a list of code points, because \<^verbatim>\<open>str.strip()\<close>
  depends on which code points are whitespace. \<open>ustr\<close> reads a literal of the program.
\<close>

type_synonym ustring = "int list"

definition ustr :: "string \<Rightarrow> ustring" where
  "ustr s = map of_char s"

text \<open>
  \<^verbatim>\<open>str.isspace()\<close> of one code point: the whitespace of Unicode, which is what
  \<^verbatim>\<open>str.strip()\<close> with no argument removes from both ends.
\<close>

definition isspace :: "int \<Rightarrow> bool" where
  "isspace c =
     ((9 \<le> c \<and> c \<le> 13) \<or> (28 \<le> c \<and> c \<le> 32) \<or> c = 133 \<or> c = 160 \<or> c = 5760 \<or>
      (8192 \<le> c \<and> c \<le> 8202) \<or> c = 8232 \<or> c = 8233 \<or> c = 8239 \<or> c = 8287 \<or>
      c = 12288)"

definition strip :: "ustring \<Rightarrow> ustring" where
  "strip s = rev (dropWhile isspace (rev (dropWhile isspace s)))"

section \<open>The relational schema\<close>

text \<open>
  The four tables of \<^verbatim>\<open>clinic.db\<close>, declared alike in \<^verbatim>\<open>app.py\<close>,
  \<^verbatim>\<open>admin_navigation.py\<close> and \<^verbatim>\<open>doctor_navigation.py\<close>. The columns keep their names
  behind a prefix for the table (\<open>p_\<close>, \<open>a_\<close>, \<open>da_\<close>, \<open>u_\<close>), since several tables
  share \<^verbatim>\<open>id\<close>, \<^verbatim>\<open>status\<close> and \<^verbatim>\<open>doctor_name\<close>. Status columns are strings,
  as in the source; a nullable column is an \<open>option\<close>. A time of day is (hour, minute).
\<close>

type_synonym time_of_day = "nat \<times> nat"

record user =
  u_id :: nat
  u_username :: string
  u_role :: string

record patient =
  p_id :: nat
  p_name :: ustring
  p_mobile :: ustring
  p_dob :: "date option"
  p_reason_to_visit :: ustring
  p_status :: string
  p_prescriptions :: "string option"

record appointment =
  a_id :: nat
  a_patient_id :: nat
  a_doctor_name :: string
  a_date :: date
  a_time :: time_of_day
  a_reason :: string
  a_status :: string
  a_cancellation_reason :: "string option"

record doctor_assignment =
  da_id :: nat
  da_patient_id :: nat
  da_doctor_name :: string
  da_assignment_date :: date

text \<open>
  The state of the system: the tables, in insertion order; the column default of
  \<^verbatim>\<open>DoctorAssignment.assignment_date\<close>; and the confirmation flags
  \<^verbatim>\<open>confirm_complete_{id}\<close> of Streamlit's session state, as pairs of a browser session
  and a patient id.

  \<^verbatim>\<open>assignment_date = Column(Date, default=datetime.today().date(), nullable=False)\<close>
  passes a value, not a callable: Python evaluates \<^verbatim>\<open>datetime.today().date()\<close> once, when the
  class body runs at the import of the module, and SQLAlchemy keeps that date as the
  default of every later insert. \<open>assignment_date_default\<close> is that date.
\<close>

record db =
  users :: "user list"
  patients :: "patient list"
  appointments :: "appointment list"
  doctor_assignments :: "doctor_assignment list"
  assignment_date_default :: date
  confirm_complete :: "(nat \<times> nat) list"

datatype error =
    FillAllFields
  | MobileAlreadyRegistered
  | LimitReached
  | AlreadyAssigned
  | ReasonRequired
  | NothingSelected
  | NotOffered
  | OverflowError

text \<open>An integer primary key: SQLite gives a new row the largest id in use plus one.\<close>

definition next_id :: "nat list \<Rightarrow> nat" where
  "next_id ids = Suc (fold max ids 0)"

text \<open>
  \<^verbatim>\<open>init_db\<close>: the admin and the four doctors, each inserted when no user has the name.
  Password hashes are salted at random and play no part below; the column is left out.
\<close>

definition add_user_if_absent :: "string \<Rightarrow> string \<Rightarrow> user list \<Rightarrow> user list" where
  "add_user_if_absent name r us =
     (if list_ex (\<lambda>u. u_username u = name) us then us
      else us @ [\<lparr>u_id = next_id (map u_id us), u_username = name, u_role = r\<rparr>])"

definition init_db :: "db \<Rightarrow> db" where
  "init_db s =
     s\<lparr>users :=
        fold (\<lambda>doctor. add_user_if_absent doctor ''Doctor'')
          [''Dr. Das'', ''Dr. Santra'', ''Dr. Banarjee'', ''Dr. Ghosh'']
          (add_user_if_absent ''admin'' ''Admin'' (users s))\<rparr>"

text \<open>The empty database of a server whose modules were imported on \<open>import_day\<close>, seeded.\<close>

definition initial_db :: "date \<Rightarrow> db" where
  "initial_db import_day =
     init_db \<lparr>users = [], patients = [], appointments = [], doctor_assignments = [],
       assignment_date_default = import_day, confirm_complete = []\<rparr>"

definition doctors :: "db \<Rightarrow> string list" where
  "doctors s = map u_username (filter (\<lambda>u. u_role u = ''Doctor'') (users s))"

section \<open>Patient registration (\<^verbatim>\<open>app.py\<close>, \<^verbatim>\<open>show_auth_page\<close>)\<close>

text \<open>
  The handler of the button ``Register''. \<open>dob\<close> is what \<^verbatim>\<open>st.date_input\<close> returned,
  \<open>None\<close> while the widget is empty. The form computes \<^verbatim>\<open>today - timedelta(days=30)\<close>
  for the widget's \<^verbatim>\<open>min_value\<close> before the handler runs; the handler compares \<open>dob\<close>
  with no bound.
\<close>

definition show_auth_page_register ::
  "db \<Rightarrow> date \<Rightarrow> ustring \<Rightarrow> ustring \<Rightarrow> date option \<Rightarrow> ustring \<Rightarrow> error + db" where
  "show_auth_page_register s today name mobile dob reason =
     (case sub_days today 30 of
        None \<Rightarrow> Inl OverflowError
      | Some min_value \<Rightarrow>
          if \<not> (name \<noteq> [] \<and> mobile \<noteq> [] \<and> dob \<noteq> None \<and> reason \<noteq> [])
            then Inl FillAllFields
          else if list_ex (\<lambda>p. p_mobile p = strip mobile) (patients s)
            then Inl MobileAlreadyRegistered
          else Inr (s\<lparr>patients := patients s @
                 [\<lparr>p_id = next_id (map p_id (patients s)), p_name = strip name,
                   p_mobile = strip mobile, p_dob = dob, p_reason_to_visit = strip reason,
                   p_status = ''Active'', p_prescriptions = None\<rparr>]\<rparr>))"

section \<open>The admin's pages (\<^verbatim>\<open>admin_navigation.py\<close>)\<close>

text \<open>
  A page offers a button or a form only for a row its query returns. An operation asked
  of a row the page does not show it for is \<open>NotOffered\<close>.

  \<^verbatim>\<open>manage_patients_and_assignments\<close>, the form ``Assign'' of one patient. The page counts
  the patient's assignments dated today; the new row leaves \<^verbatim>\<open>assignment_date\<close> to the
  column default.
\<close>

definition manage_patients_assign :: "db \<Rightarrow> date \<Rightarrow> nat \<Rightarrow> string \<Rightarrow> error + db" where
  "manage_patients_assign s today pid selected_doctor =
     (if list_ex (\<lambda>p. p_id p = pid) (patients s) \<and> selected_doctor \<in> set ([] # doctors s)
      then
        (let assignments_today =
               filter (\<lambda>a. da_patient_id a = pid \<and> da_assignment_date a = today)
                 (doctor_assignments s);
             assigned_doctors_today = map da_doctor_name assignments_today
         in if selected_doctor = [] then Inl NothingSelected
            else if 2 \<le> length assigned_doctors_today then Inl LimitReached
            else if selected_doctor \<in> set assigned_doctors_today then Inl AlreadyAssigned
            else Inr (s\<lparr>doctor_assignments := doctor_assignments s @
                   [\<lparr>da_id = next_id (map da_id (doctor_assignments s)),
                     da_patient_id = pid, da_doctor_name = selected_doctor,
                     da_assignment_date = assignment_date_default s\<rparr>]\<rparr>))
      else Inl NotOffered)"

text \<open>
  \<^verbatim>\<open>manage_appointments\<close>, the form ``Schedule Appointment''. The patient is chosen by the
  key \<^verbatim>\<open>f"{p.name} ({p.mobile})"\<close> of a dict built in table order, so the last patient with
  a key owns it. The form gives today to the date field as its \<^verbatim>\<open>min_value\<close>; the
  handler compares the date with nothing.
\<close>

definition patient_key :: "patient \<Rightarrow> ustring" where
  "patient_key p = p_name p @ ustr '' ('' @ p_mobile p @ ustr '')''"

definition patient_map :: "db \<Rightarrow> ustring \<Rightarrow> nat option" where
  "patient_map s = map_of (rev (map (\<lambda>p. (patient_key p, p_id p)) (patients s)))"

definition manage_appointments_schedule ::
  "db \<Rightarrow> date \<Rightarrow> ustring \<Rightarrow> string \<Rightarrow> date \<Rightarrow> time_of_day \<Rightarrow> string \<Rightarrow> error + db" where
  "manage_appointments_schedule s today selected_patient_key selected_doctor_name
       appt_date appt_time reason =
     (case patient_map s selected_patient_key of
        None \<Rightarrow> Inl NotOffered
      | Some patient_id \<Rightarrow>
          if selected_doctor_name \<in> set (doctors s)
          then Inr (s\<lparr>appointments := appointments s @
                 [\<lparr>a_id = next_id (map a_id (appointments s)), a_patient_id = patient_id,
                   a_doctor_name = selected_doctor_name, a_date = appt_date,
                   a_time = appt_time, a_reason = reason, a_status = ''Scheduled'',
                   a_cancellation_reason = None\<rparr>]\<rparr>)
          else Inl NotOffered)"

text \<open>Writing to the row an ORM object stands for: the row with its primary key.\<close>

definition update_appointment ::
  "nat \<Rightarrow> (appointment \<Rightarrow> appointment) \<Rightarrow> appointment list \<Rightarrow> appointment list" where
  "update_appointment i f as = map (\<lambda>a. if a_id a = i then f a else a) as"

definition update_patient ::
  "nat \<Rightarrow> (patient \<Rightarrow> patient) \<Rightarrow> patient list \<Rightarrow> patient list" where
  "update_patient i f ps = map (\<lambda>p. if p_id p = i then f p else p) ps"

text \<open>\<^verbatim>\<open>manage_appointments\<close>, ``Pending Cancellation Requests'': approve and deny.\<close>

definition cancellation_requests :: "db \<Rightarrow> appointment list" where
  "cancellation_requests s =
     filter (\<lambda>a. a_status a = ''Cancellation Requested'') (appointments s)"

definition manage_appointments_approve :: "db \<Rightarrow> nat \<Rightarrow> error + db" where
  "manage_appointments_approve s i =
     (if list_ex (\<lambda>a. a_id a = i) (cancellation_requests s)
      then Inr (s\<lparr>appointments :=
             update_appointment i (\<lambda>appt. appt\<lparr>a_status := ''Cancelled''\<rparr>) (appointments s)\<rparr>)
      else Inl NotOffered)"

definition manage_appointments_deny :: "db \<Rightarrow> nat \<Rightarrow> error + db" where
  "manage_appointments_deny s i =
     (if list_ex (\<lambda>a. a_id a = i) (cancellation_requests s)
      then Inr (s\<lparr>appointments :=
             update_appointment i
               (\<lambda>appt. appt\<lparr>a_status := ''Scheduled'', a_cancellation_reason := None\<rparr>)
               (appointments s)\<rparr>)
      else Inl NotOffered)"

section \<open>The doctor's pages (\<^verbatim>\<open>doctor_navigation.py\<close>)\<close>

text \<open>\<^verbatim>\<open>manage_my_appointments\<close>: the doctor's appointments that are not cancelled.\<close>

definition my_appointments :: "db \<Rightarrow> string \<Rightarrow> appointment list" where
  "my_appointments s doctor_name =
     filter (\<lambda>a. a_doctor_name a = doctor_name \<and>
                 a_status a \<in> set [''Scheduled'', ''Cancellation Requested''])
       (appointments s)"

text \<open>``Add to My Patient List'', shown for a scheduled appointment with no assignment yet.\<close>

definition manage_my_appointments_add :: "db \<Rightarrow> string \<Rightarrow> nat \<Rightarrow> error + db" where
  "manage_my_appointments_add s doctor_name i =
     (case find (\<lambda>a. a_id a = i) (my_appointments s doctor_name) of
        None \<Rightarrow> Inl NotOffered
      | Some appt \<Rightarrow>
          if a_status appt = ''Scheduled'' then
            (let assignment_exists =
                   list_ex (\<lambda>a. da_patient_id a = a_patient_id appt \<and>
                                da_doctor_name a = doctor_name \<and>
                                da_assignment_date a = a_date appt)
                     (doctor_assignments s)
             in if assignment_exists then Inl AlreadyAssigned
                else Inr (s\<lparr>doctor_assignments := doctor_assignments s @
                       [\<lparr>da_id = next_id (map da_id (doctor_assignments s)),
                         da_patient_id = a_patient_id appt, da_doctor_name = doctor_name,
                         da_assignment_date = a_date appt\<rparr>]\<rparr>))
          else Inl NotOffered)"

text \<open>``Request to Cancel'', the form of a scheduled appointment.\<close>

definition manage_my_appointments_request_cancel ::
  "db \<Rightarrow> string \<Rightarrow> nat \<Rightarrow> string \<Rightarrow> error + db" where
  "manage_my_appointments_request_cancel s doctor_name i reason =
     (case find (\<lambda>a. a_id a = i) (my_appointments s doctor_name) of
        None \<Rightarrow> Inl NotOffered
      | Some appt \<Rightarrow>
          if a_status appt = ''Scheduled'' then
            (if reason \<noteq> [] then
               Inr (s\<lparr>appointments :=
                 update_appointment i
                   (\<lambda>appt. appt\<lparr>a_status := ''Cancellation Requested'',
                                a_cancellation_reason := Some reason\<rparr>)
                   (appointments s)\<rparr>)
             else Inl ReasonRequired)
          else Inl NotOffered)"

text \<open>\<^verbatim>\<open>manage_my_patients\<close>: the active patients with an assignment to the doctor.\<close>

definition active_patients :: "db \<Rightarrow> string \<Rightarrow> patient list" where
  "active_patients s doctor_name =
     (let assigned_ids =
            map da_patient_id
              (filter (\<lambda>a. da_doctor_name a = doctor_name) (doctor_assignments s))
      in filter (\<lambda>p. p_id p \<in> set assigned_ids \<and> p_status p = ''Active'') (patients s))"

definition manage_my_patients_save_notes ::
  "db \<Rightarrow> string \<Rightarrow> nat \<Rightarrow> string \<Rightarrow> error + db" where
  "manage_my_patients_save_notes s doctor_name pid notes =
     (if list_ex (\<lambda>p. p_id p = pid) (active_patients s doctor_name)
      then Inr (s\<lparr>patients :=
             update_patient pid (\<lambda>p. p\<lparr>p_prescriptions := Some notes\<rparr>) (patients s)\<rparr>)
      else Inl NotOffered)"

text \<open>
  ``Mark as Completed'' sets the flag \<^verbatim>\<open>confirm_complete_{p.id}\<close> of the browser session;
  with the flag set the page shows ``Yes, Complete'' and ``No, Cancel'' instead.
\<close>

definition manage_my_patients_mark_completed ::
  "db \<Rightarrow> nat \<Rightarrow> string \<Rightarrow> nat \<Rightarrow> error + db" where
  "manage_my_patients_mark_completed s session doctor_name pid =
     (if list_ex (\<lambda>p. p_id p = pid) (active_patients s doctor_name) \<and>
         (session, pid) \<notin> set (confirm_complete s)
      then Inr (s\<lparr>confirm_complete := (session, pid) # confirm_complete s\<rparr>)
      else Inl NotOffered)"

definition manage_my_patients_yes_complete ::
  "db \<Rightarrow> nat \<Rightarrow> string \<Rightarrow> nat \<Rightarrow> error + db" where
  "manage_my_patients_yes_complete s session doctor_name pid =
     (if list_ex (\<lambda>p. p_id p = pid) (active_patients s doctor_name) \<and>
         (session, pid) \<in> set (confirm_complete s)
      then Inr (s\<lparr>patients :=
                  update_patient pid (\<lambda>p. p\<lparr>p_status := ''Completed''\<rparr>) (patients s),
                confirm_complete := removeAll (session, pid) (confirm_complete s)\<rparr>)
      else Inl NotOffered)"

definition manage_my_patients_no_cancel ::
  "db \<Rightarrow> nat \<Rightarrow> string \<Rightarrow> nat \<Rightarrow> error + db" where
  "manage_my_patients_no_cancel s session doctor_name pid =
     (if list_ex (\<lambda>p. p_id p = pid) (active_patients s doctor_name) \<and>
         (session, pid) \<in> set (confirm_complete s)
      then Inr (s\<lparr>confirm_complete := removeAll (session, pid) (confirm_complete s)\<rparr>)
      else Inl NotOffered)"

text \<open>``Yes, Logout'' deletes every key of the session state.\<close>

definition logout :: "db \<Rightarrow> nat \<Rightarrow> db" where
  "logout s session = s\<lparr>confirm_complete := filter (\<lambda>(k, _). k \<noteq> session) (confirm_complete s)\<rparr>"

section \<open>The system as a whole\<close>

text \<open>
  Every operation that writes to the store, as an action with the inputs the user and the
  clock give it. A rejected action commits nothing: the state stays as it was.
\<close>

datatype action =
    Register date ustring ustring "date option" ustring
  | Assign date nat string
  | Schedule date ustring string date time_of_day string
  | Approve nat
  | Deny nat
  | AddToMyPatientList string nat
  | RequestCancel string nat string
  | SaveNotes string nat string
  | MarkCompleted nat string nat
  | YesComplete nat string nat
  | NoCancel nat string nat
  | Logout nat

fun step :: "db \<Rightarrow> action \<Rightarrow> error + db" where
  "step s (Register today name mobile dob reason) =
     show_auth_page_register s today name mobile dob reason"
| "step s (Assign today pid doctor) = manage_patients_assign s today pid doctor"
| "step s (Schedule today key doctor d t reason) =
     manage_appointments_schedule s today key doctor d t reason"
| "step s (Approve i) = manage_appointments_approve s i"
| "step s (Deny i) = manage_appointments_deny s i"
| "step s (AddToMyPatientList doctor i) = manage_my_appointments_add s doctor i"
| "step s (RequestCancel doctor i reason) =
     manage_my_appointments_request_cancel s doctor i reason"
| "step s (SaveNotes doctor pid notes) = manage_my_patients_save_notes s doctor pid notes"
| "step s (MarkCompleted session doctor pid) =
     manage_my_patients_mark_completed s session doctor pid"
| "step s (YesComplete session doctor pid) =
     manage_my_patients_yes_complete s session doctor pid"
| "step s (NoCancel session doctor pid) = manage_my_patients_no_cancel s session doctor pid"
| "step s (Logout session) = Inr (logout s session)"

definition apply_action :: "db \<Rightarrow> action \<Rightarrow> db" where
  "apply_action s a = (case step s a of Inl _ \<Rightarrow> s | Inr t \<Rightarrow> t)"

definition run :: "db \<Rightarrow> action list \<Rightarrow> db" where
  "run s as = foldl apply_action s as"

text \<open>The states the run visits, the first one included.\<close>

fun trace :: "db \<Rightarrow> action list \<Rightarrow> db list" where
  "trace s [] = [s]"
| "trace s (a # as) = s # trace (apply_action s a) as"

section \<open>The monthly calendar (\<^verbatim>\<open>admin_navigation.py\<close>, \<^verbatim>\<open>show_dashboard_calendar\<close>)\<close>


section \<open>Notions the properties are stated with\<close>

text \<open>The row with a given primary key.\<close>

definition get_appointment :: "db \<Rightarrow> nat \<Rightarrow> appointment option" where
  "get_appointment s i = find (\<lambda>a. a_id a = i) (appointments s)"

text \<open>The distinct doctors assigned to a patient on a date.\<close>

definition distinct_doctors :: "db \<Rightarrow> nat \<Rightarrow> date \<Rightarrow> string list" where
  "distinct_doctors s pid d =
     remdups (map da_doctor_name
       (filter (\<lambda>a. da_patient_id a = pid \<and> da_assignment_date a = d) (doctor_assignments s)))"


text \<open>
  The three edges of the appointment life cycle, each with the operation that takes it:
  the doctor's request, the admin's approval, the admin's denial.
\<close>

fun transition :: "action \<Rightarrow> string \<Rightarrow> string \<Rightarrow> bool" where
  "transition (RequestCancel _ _ _) x y = (x = ''Scheduled'' \<and> y = ''Cancellation Requested'')"
| "transition (Approve _) x y = (x = ''Cancellation Requested'' \<and> y = ''Cancelled'')"
| "transition (Deny _) x y = (x = ''Cancellation Requested'' \<and> y = ''Scheduled'')"
| "transition _ x y = False"

text \<open>
  Along a run, the appointment in row \<open>k\<close> keeps its id, and each action leaves its status
  alone or moves it along the edge of that action.
\<close>

fun status_path_ok :: "nat \<Rightarrow> db \<Rightarrow> action list \<Rightarrow> bool" where
  "status_path_ok k s [] = True"
| "status_path_ok k s (a # as) =
     (let t = apply_action s a;
          x = a_status (appointments s ! k);
          y = a_status (appointments t ! k)
      in a_id (appointments t ! k) = a_id (appointments s ! k) \<and>
         (y = x \<or> transition a x y) \<and> status_path_ok k t as)"

text \<open>
  The one way a patient's status changes: ``Yes, Complete'' for that patient, in a session
  whose confirmation flag ``Mark as Completed'' has set.
\<close>

fun completes :: "db \<Rightarrow> action \<Rightarrow> nat \<Rightarrow> bool" where
  "completes s (YesComplete session _ pid) i =
     (pid = i \<and> (session, pid) \<in> set (confirm_complete s))"
| "completes s _ i = False"

fun patient_path_ok :: "nat \<Rightarrow> db \<Rightarrow> action list \<Rightarrow> bool" where
  "patient_path_ok k s [] = True"
| "patient_path_ok k s (a # as) =
     (let t = apply_action s a;
          x = p_status (patients s ! k);
          y = p_status (patients t ! k)
      in p_id (patients t ! k) = p_id (patients s ! k) \<and>
         (y = x \<or> (x = ''Active'' \<and> y = ''Completed'' \<and> completes s a (p_id (patients s ! k)))) \<and>
         patient_path_ok k t as)"

definition status_valid :: "db \<Rightarrow> bool" where
  "status_valid s =
     list_all (\<lambda>p. p_status p = ''Active'' \<or> p_status p = ''Completed'') (patients s)"

text \<open>
  What it is for \<open>c\<close> to be \<open>s\<close> with its leading and trailing whitespace removed: \<open>s\<close> is
  \<open>c\<close> between two runs of whitespace \<open>l\<close> and \<open>r\<close>, and \<open>c\<close> neither starts nor ends with
  whitespace.
\<close>

definition strips_to :: "ustring \<Rightarrow> ustring \<Rightarrow> ustring \<Rightarrow> ustring \<Rightarrow> bool" where
  "strips_to l r s c =
     (s = l @ c @ r \<and> list_all isspace l \<and> list_all isspace r \<and>
      (c = [] \<or> (\<not> isspace (hd c) \<and> \<not> isspace (last c))))"







subsection \<open>A clinic to try the properties on\<close>

definition day1 :: date where
  "day1 = \<lparr>year = 2024, month = 1, day = 1\<rparr>"

definition day2 :: date where
  "day2 = \<lparr>year = 2024, month = 1, day = 2\<rparr>"



definition too_early :: date where
  "too_early = \<lparr>year = 2023, month = 12, day = 1\<rparr>"

definition jane_key :: ustring where
  "jane_key = ustr ''Jane Doe (9999999999)''"

definition register_jane :: action where
  "register_jane =
     Register day1 (ustr ''Jane Doe'') (ustr ''9999999999'') (Some day1) (ustr ''fever'')"

text \<open>One patient with two doctors on \<open>day1\<close> and an appointment with a third.\<close>

definition two_doctors :: db where
  "two_doctors = run (initial_db day1)
     [register_jane, Assign day1 1 ''Dr. Das'', Assign day1 1 ''Dr. Santra'',
      Schedule day1 jane_key ''Dr. Ghosh'' day1 (10, 30) ''review'']"

definition scheduled_appointment :: appointment where
  "scheduled_appointment =
     \<lparr>a_id = 1, a_patient_id = 1, a_doctor_name = ''Dr. Ghosh'', a_date = day1,
      a_time = (10, 30), a_reason = ''review'', a_status = ''Scheduled'',
      a_cancellation_reason = None\<rparr>"

text \<open>The same clinic after Dr. Ghosh asked to cancel, and after the admin approved.\<close>

definition cancellation_pending :: db where
  "cancellation_pending = run two_doctors [RequestCancel ''Dr. Ghosh'' 1 ''relocating'']"

definition pending_appointment :: appointment where
  "pending_appointment =
     scheduled_appointment\<lparr>a_status := ''Cancellation Requested'',
       a_cancellation_reason := Some ''relocating''\<rparr>"

definition cancelled_clinic :: db where
  "cancelled_clinic = run cancellation_pending [Approve 1]"

definition schedule_follow_up :: action where
  "schedule_follow_up = Schedule day1 jane_key ''Dr. Das'' day2 (9, 0) ''follow-up''"

text \<open>
  The clinic right after the first registration, plain and with whitespace around the
  input: a space and an em space around the name, an ideographic space and a tab before
  the mobile number and a space behind it, two line feeds behind the reason.
\<close>

definition jane_registered :: db where
  "jane_registered = apply_action (initial_db day1) register_jane"

definition register_jane_padded :: action where
  "register_jane_padded =
     Register day1 ([32] @ ustr ''Jane Doe'' @ [8195])
       ([12288, 9] @ ustr ''9999999999'' @ [32]) (Some day1) (ustr ''fever'' @ [10, 10])"

definition jane_padded_registered :: db where
  "jane_padded_registered = apply_action (initial_db day1) register_jane_padded"

text \<open>A second registration, with a no-break space before the same mobile number.\<close>

definition register_john :: action where
  "register_john =
     Register day2 (ustr ''John Roe'') ([160] @ ustr ''9999999999'') (Some day1)
       (ustr ''cough'')"


text \<open>The same clinic after Dr. Das completed the patient's case.\<close>

definition completed_clinic :: db where
  "completed_clinic =
     run two_doctors [MarkCompleted 7 ''Dr. Das'' 1, YesComplete 7 ''Dr. Das'' 1]"


section \<open>Facts about lists of rows\<close>

lemmas op_defs = show_auth_page_register_def manage_patients_assign_def
  manage_appointments_schedule_def manage_appointments_approve_def manage_appointments_deny_def
  manage_my_appointments_add_def manage_my_appointments_request_cancel_def
  manage_my_patients_save_notes_def manage_my_patients_mark_completed_def
  manage_my_patients_yes_complete_def manage_my_patients_no_cancel_def logout_def

lemma find_Some_list_ex:
  "find P xs = Some x \<Longrightarrow> Q x \<Longrightarrow> list_ex P (filter Q xs)"
  by (induction xs) (auto split: if_splits)

lemma find_filter_Some:
  "find P xs = Some x \<Longrightarrow> Q x \<Longrightarrow> find P (filter Q xs) = Some x"
  by (induction xs) (auto split: if_splits)

lemma find_SomeD: "find P xs = Some x \<Longrightarrow> x \<in> set xs \<and> P x"
  by (induction xs) (auto split: if_splits)

lemma list_ex_filterD: "list_ex P (filter Q xs) \<Longrightarrow> \<exists>x\<in>set xs. P x \<and> Q x"
  by (auto simp: list_ex_iff)

lemma fold_max_ge: "b \<le> fold max xs (b::nat)"
  by (induction xs arbitrary: b) (auto intro: order_trans[OF max.cobounded2])

lemma fold_max_mem: "x \<in> set xs \<Longrightarrow> x \<le> fold max xs (b::nat)"
proof (induction xs arbitrary: b)
  case Nil
  then show ?case by simp
next
  case (Cons y ys)
  show ?case
  proof (cases "x = y")
    case True
    have "max y b \<le> fold max ys (max y b)" by (rule fold_max_ge)
    with True show ?thesis by simp
  next
    case False
    with Cons show ?thesis by simp
  qed
qed

lemma next_id_fresh: "next_id ids \<notin> set ids"
  using fold_max_mem[of "next_id ids" ids 0] by (auto simp: next_id_def)

lemma apply_action_cases:
  "step s a = Inr (apply_action s a) \<or> apply_action s a = s"
  by (cases "step s a") (simp_all add: apply_action_def)

lemma rejected_keeps_state: "step s a = Inl e \<Longrightarrow> apply_action s a = s"
  by (simp add: apply_action_def)

lemma initial_db_tables:
  "patients (initial_db d) = []" "appointments (initial_db d) = []"
  "doctor_assignments (initial_db d) = []"
  by (simp_all add: initial_db_def init_db_def)

lemma find_update_appointment:
  assumes "\<And>a. a_id (f a) = a_id a"
  shows "find (\<lambda>a. a_id a = i) (update_appointment i f as) =
           map_option f (find (\<lambda>a. a_id a = i) as)"
  using assms by (induction as) (simp_all add: update_appointment_def)

lemma nth_update_appointment:
  "k < length as \<Longrightarrow>
     update_appointment i f as ! k = (if a_id (as ! k) = i then f (as ! k) else as ! k)"
  by (simp add: update_appointment_def)

lemma length_update_appointment [simp]: "length (update_appointment i f as) = length as"
  by (simp add: update_appointment_def)

lemma map_a_id_update:
  assumes "\<And>a. a_id (f a) = a_id a"
  shows "map a_id (update_appointment i f as) = map a_id as"
  using assms by (induction as) (simp_all add: update_appointment_def)

lemma appointment_key:
  assumes "distinct (map a_id as)" "x \<in> set as" "y \<in> set as" "a_id x = a_id y"
  shows "x = y"
  using assms by (meson distinct_map inj_onD)

section \<open>How one operation changes the appointments\<close>

lemma approve_step:
  assumes "step s (Approve i) = Inr t" "distinct (map a_id (appointments s))"
    "k < length (appointments s)"
  shows "a_id (appointments t ! k) = a_id (appointments s ! k) \<and>
     (a_status (appointments t ! k) = a_status (appointments s ! k) \<or>
      (a_status (appointments s ! k) = ''Cancellation Requested'' \<and>
       a_status (appointments t ! k) = ''Cancelled''))"
proof -
  from assms(1) have ex: "list_ex (\<lambda>a. a_id a = i) (cancellation_requests s)"
    and t: "appointments t =
      update_appointment i (\<lambda>appt. appt\<lparr>a_status := ''Cancelled''\<rparr>) (appointments s)"
    by (auto simp: manage_appointments_approve_def split: if_splits)
  from ex obtain x where x: "x \<in> set (appointments s)" "a_id x = i"
    "a_status x = ''Cancellation Requested''"
    unfolding cancellation_requests_def by (auto dest: list_ex_filterD)
  show ?thesis
  proof (cases "a_id (appointments s ! k) = i")
    case True
    then have "appointments s ! k = x"
      using appointment_key[OF assms(2) _ x(1)] x(2) assms(3) by simp
    with x t assms(3) show ?thesis by (simp add: nth_update_appointment)
  next
    case False
    with t assms(3) show ?thesis by (simp add: nth_update_appointment)
  qed
qed

lemma deny_step:
  assumes "step s (Deny i) = Inr t" "distinct (map a_id (appointments s))"
    "k < length (appointments s)"
  shows "a_id (appointments t ! k) = a_id (appointments s ! k) \<and>
     (a_status (appointments t ! k) = a_status (appointments s ! k) \<or>
      (a_status (appointments s ! k) = ''Cancellation Requested'' \<and>
       a_status (appointments t ! k) = ''Scheduled''))"
proof -
  from assms(1) have ex: "list_ex (\<lambda>a. a_id a = i) (cancellation_requests s)"
    and t: "appointments t =
      update_appointment i
        (\<lambda>appt. appt\<lparr>a_status := ''Scheduled'', a_cancellation_reason := None\<rparr>)
        (appointments s)"
    by (auto simp: manage_appointments_deny_def split: if_splits)
  from ex obtain x where x: "x \<in> set (appointments s)" "a_id x = i"
    "a_status x = ''Cancellation Requested''"
    unfolding cancellation_requests_def by (auto dest: list_ex_filterD)
  show ?thesis
  proof (cases "a_id (appointments s ! k) = i")
    case True
    then have "appointments s ! k = x"
      using appointment_key[OF assms(2) _ x(1)] x(2) assms(3) by simp
    with x t assms(3) show ?thesis by (simp add: nth_update_appointment)
  next
    case False
    with t assms(3) show ?thesis by (simp add: nth_update_appointment)
  qed
qed

lemma request_cancel_step:
  assumes "step s (RequestCancel doctor i reason) = Inr t" "distinct (map a_id (appointments s))"
    "k < length (appointments s)"
  shows "a_id (appointments t ! k) = a_id (appointments s ! k) \<and>
     (a_status (appointments t ! k) = a_status (appointments s ! k) \<or>
      (a_status (appointments s ! k) = ''Scheduled'' \<and>
       a_status (appointments t ! k) = ''Cancellation Requested''))"
proof -
  from assms(1) obtain x where
    f: "find (\<lambda>a. a_id a = i) (my_appointments s doctor) = Some x"
    and st: "a_status x = ''Scheduled''"
    and t: "appointments t =
      update_appointment i
        (\<lambda>appt. appt\<lparr>a_status := ''Cancellation Requested'',
                     a_cancellation_reason := Some reason\<rparr>)
        (appointments s)"
    by (auto simp: manage_my_appointments_request_cancel_def split: if_splits option.splits)
  from find_SomeD[OF f] have x: "x \<in> set (appointments s)" "a_id x = i"
    by (auto simp: my_appointments_def)
  show ?thesis
  proof (cases "a_id (appointments s ! k) = i")
    case True
    then have "appointments s ! k = x"
      using appointment_key[OF assms(2) _ x(1)] x(2) assms(3) by simp
    with x st t assms(3) show ?thesis by (simp add: nth_update_appointment)
  next
    case False
    with t assms(3) show ?thesis by (simp add: nth_update_appointment)
  qed
qed

lemma schedule_step:
  assumes "step s (Schedule today key doctor d tm reason) = Inr t"
  shows "\<exists>x. appointments t = appointments s @ [x] \<and>
             a_id x = next_id (map a_id (appointments s)) \<and> a_status x = ''Scheduled'' \<and>
             a_cancellation_reason x = None"
  using assms by (auto simp: manage_appointments_schedule_def split: if_splits option.splits)

lemma unchanged_appointments:
  "step s (Register today name mobile dob reason) = Inr t \<Longrightarrow> appointments t = appointments s"
  "step s (Assign today pid doctor) = Inr t \<Longrightarrow> appointments t = appointments s"
  "step s (AddToMyPatientList doctor i) = Inr t \<Longrightarrow> appointments t = appointments s"
  "step s (SaveNotes doctor pid notes) = Inr t \<Longrightarrow> appointments t = appointments s"
  "step s (MarkCompleted session doctor pid) = Inr t \<Longrightarrow> appointments t = appointments s"
  "step s (YesComplete session doctor pid) = Inr t \<Longrightarrow> appointments t = appointments s"
  "step s (NoCancel session doctor pid) = Inr t \<Longrightarrow> appointments t = appointments s"
  "step s (Logout session) = Inr t \<Longrightarrow> appointments t = appointments s"
  by (auto simp: op_defs Let_def split: if_splits option.splits)

lemma appointment_step:
  assumes "step s a = Inr t" "distinct (map a_id (appointments s))"
    "k < length (appointments s)"
  shows "a_id (appointments t ! k) = a_id (appointments s ! k) \<and>
     (a_status (appointments t ! k) = a_status (appointments s ! k) \<or>
      transition a (a_status (appointments s ! k)) (a_status (appointments t ! k)))"
proof (cases a)
  case (Approve i)
  with approve_step[of s i t k] assms show ?thesis by simp
next
  case (Deny i)
  with deny_step[of s i t k] assms show ?thesis by simp
next
  case (RequestCancel d i r)
  with request_cancel_step[of s d i r t k] assms show ?thesis by simp
next
  case (Schedule today key doctor d tm reason)
  with schedule_step[of s today key doctor d tm reason t] assms show ?thesis
    by (auto simp: nth_append)
qed (use assms(1) unchanged_appointments in auto)

lemma appointment_keys_step:
  assumes "step s a = Inr t" "distinct (map a_id (appointments s))"
  shows "distinct (map a_id (appointments t)) \<and> length (appointments s) \<le> length (appointments t)"
proof (cases a)
  case (Approve i)
  with assms show ?thesis
    by (auto simp: manage_appointments_approve_def map_a_id_update split: if_splits)
next
  case (Deny i)
  with assms show ?thesis
    by (auto simp: manage_appointments_deny_def map_a_id_update split: if_splits)
next
  case (RequestCancel d i r)
  with assms show ?thesis
    by (auto simp: manage_my_appointments_request_cancel_def map_a_id_update
        split: if_splits option.splits)
next
  case (Schedule today key doctor d tm reason)
  with schedule_step[of s today key doctor d tm reason t] assms
    next_id_fresh[of "map a_id (appointments s)"]
  show ?thesis by auto
qed (use assms unchanged_appointments in auto)

lemma appointment_apply:
  assumes "distinct (map a_id (appointments s))" "k < length (appointments s)"
  shows "a_id (appointments (apply_action s a) ! k) = a_id (appointments s ! k) \<and>
     (a_status (appointments (apply_action s a) ! k) = a_status (appointments s ! k) \<or>
      transition a (a_status (appointments s ! k))
        (a_status (appointments (apply_action s a) ! k))) \<and>
     distinct (map a_id (appointments (apply_action s a))) \<and>
     k < length (appointments (apply_action s a))"
  using apply_action_cases[of s a] appointment_step[of s a "apply_action s a" k]
    appointment_keys_step[of s a "apply_action s a"] assms
  by auto

lemma status_path:
  assumes "distinct (map a_id (appointments s))" "k < length (appointments s)"
  shows "status_path_ok k s acts"
  using assms
proof (induction acts arbitrary: s)
  case Nil
  then show ?case by simp
next
  case (Cons a acts)
  from appointment_apply[OF Cons.prems, of a] Cons.IH[of "apply_action s a"]
  show ?case by (simp add: Let_def)
qed

lemma transition_not_from_cancelled: "\<not> transition a ''Cancelled'' y"
  by (cases a) simp_all

lemma cancelled_stays:
  assumes "distinct (map a_id (appointments s))" "k < length (appointments s)"
    "a_status (appointments s ! k) = ''Cancelled''"
  shows "a_status (appointments (run s acts) ! k) = ''Cancelled''"
  using assms
proof (induction acts arbitrary: s)
  case Nil
  then show ?case by (simp add: run_def)
next
  case (Cons a acts)
  from appointment_apply[OF Cons.prems(1,2), of a] Cons.prems(3)
  have "a_status (appointments (apply_action s a) ! k) = ''Cancelled''"
    and "distinct (map a_id (appointments (apply_action s a)))"
    and "k < length (appointments (apply_action s a))"
    using transition_not_from_cancelled by auto
  from Cons.IH[OF this(2,3,1)] show ?case by (simp add: run_def)
qed

text \<open>The ids of the appointments stay distinct in every state the clinic reaches.\<close>

lemma reachable_appointment_keys:
  "distinct (map a_id (appointments (run (initial_db d) acts)))"
proof -
  have "distinct (map a_id (appointments s)) \<Longrightarrow>
        distinct (map a_id (appointments (run s acts)))" for s
  proof (induction acts arbitrary: s)
    case Nil
    then show ?case by (simp add: run_def)
  next
    case (Cons a acts)
    have "distinct (map a_id (appointments (apply_action s a)))"
      using apply_action_cases[of s a] appointment_keys_step[of s a "apply_action s a"]
        Cons.prems
      by auto
    from Cons.IH[OF this] show ?case by (simp add: run_def)
  qed
  then show ?thesis by (simp add: initial_db_tables)
qed

section \<open>How one operation changes the patients\<close>

lemma nth_update_patient:
  "k < length ps \<Longrightarrow>
     update_patient i f ps ! k = (if p_id (ps ! k) = i then f (ps ! k) else ps ! k)"
  by (simp add: update_patient_def)

lemma length_update_patient [simp]: "length (update_patient i f ps) = length ps"
  by (simp add: update_patient_def)

lemma map_p_id_update:
  assumes "\<And>p. p_id (f p) = p_id p"
  shows "map p_id (update_patient i f ps) = map p_id ps"
  using assms by (induction ps) (simp_all add: update_patient_def)

lemma map_p_mobile_update:
  assumes "\<And>p. p_mobile (f p) = p_mobile p"
  shows "map p_mobile (update_patient i f ps) = map p_mobile ps"
  using assms by (induction ps) (simp_all add: update_patient_def)

lemma patient_key:
  assumes "distinct (map p_id ps)" "x \<in> set ps" "y \<in> set ps" "p_id x = p_id y"
  shows "x = y"
  using assms by (meson distinct_map inj_onD)

lemma unchanged_patients:
  "step s (Assign today pid doctor) = Inr t \<Longrightarrow> patients t = patients s"
  "step s (Schedule today key doctor d tm reason) = Inr t \<Longrightarrow> patients t = patients s"
  "step s (Approve i) = Inr t \<Longrightarrow> patients t = patients s"
  "step s (Deny i) = Inr t \<Longrightarrow> patients t = patients s"
  "step s (AddToMyPatientList doctor i) = Inr t \<Longrightarrow> patients t = patients s"
  "step s (RequestCancel doctor i reason) = Inr t \<Longrightarrow> patients t = patients s"
  "step s (MarkCompleted session doctor pid) = Inr t \<Longrightarrow> patients t = patients s"
  "step s (NoCancel session doctor pid) = Inr t \<Longrightarrow> patients t = patients s"
  "step s (Logout session) = Inr t \<Longrightarrow> patients t = patients s"
  by (auto simp: op_defs Let_def split: if_splits option.splits)

lemma register_step:
  assumes "step s (Register today name mobile dob reason) = Inr t"
  shows "\<exists>p. patients t = patients s @ [p] \<and> p_id p = next_id (map p_id (patients s)) \<and>
             p_name p = strip name \<and> p_mobile p = strip mobile \<and>
             p_reason_to_visit p = strip reason \<and> p_status p = ''Active'' \<and>
             p_prescriptions p = None \<and> strip mobile \<notin> set (map p_mobile (patients s)) \<and>
             name \<noteq> [] \<and> mobile \<noteq> [] \<and> reason \<noteq> []"
proof -
  from assms have ne: "name \<noteq> []" "mobile \<noteq> []" "reason \<noteq> []"
    and fresh: "\<not> list_ex (\<lambda>p. p_mobile p = strip mobile) (patients s)"
    and t: "t = s\<lparr>patients := patients s @
                  [\<lparr>p_id = next_id (map p_id (patients s)), p_name = strip name,
                    p_mobile = strip mobile, p_dob = dob, p_reason_to_visit = strip reason,
                    p_status = ''Active'', p_prescriptions = None\<rparr>]\<rparr>"
    by (auto simp: show_auth_page_register_def split: if_splits option.splits)
  from fresh have "strip mobile \<notin> set (map p_mobile (patients s))"
    by (force simp: list_ex_iff)
  with t ne show ?thesis by simp
qed

lemma save_notes_step:
  assumes "step s (SaveNotes doctor pid nts) = Inr t"
  shows "patients t = update_patient pid (\<lambda>p. p\<lparr>p_prescriptions := Some nts\<rparr>) (patients s)"
  using assms by (auto simp: manage_my_patients_save_notes_def split: if_splits)

lemma yes_complete_step:
  assumes "step s (YesComplete session doctor pid) = Inr t"
  shows "patients t = update_patient pid (\<lambda>p. p\<lparr>p_status := ''Completed''\<rparr>) (patients s) \<and>
         (session, pid) \<in> set (confirm_complete s) \<and>
         (\<exists>x\<in>set (patients s). p_id x = pid \<and> p_status x = ''Active'')"
  using assms
  by (auto simp: manage_my_patients_yes_complete_def active_patients_def list_ex_iff
      split: if_splits)

lemma patient_step:
  assumes "step s a = Inr t" "distinct (map p_id (patients s))" "k < length (patients s)"
  shows "p_id (patients t ! k) = p_id (patients s ! k) \<and>
     (p_status (patients t ! k) = p_status (patients s ! k) \<or>
      (p_status (patients s ! k) = ''Active'' \<and> p_status (patients t ! k) = ''Completed'' \<and>
       completes s a (p_id (patients s ! k))))"
proof (cases a)
  case (Register today name mobile dob reason)
  with register_step[of s today name mobile dob reason t] assms show ?thesis
    by (auto simp: nth_append)
next
  case (SaveNotes doctor pid nts)
  with save_notes_step[of s doctor pid nts t] assms show ?thesis
    by (simp add: nth_update_patient)
next
  case (YesComplete session doctor pid)
  from yes_complete_step[of s session doctor pid t] assms(1) YesComplete
  obtain x where t: "patients t = update_patient pid (\<lambda>p. p\<lparr>p_status := ''Completed''\<rparr>) (patients s)"
    and flag: "(session, pid) \<in> set (confirm_complete s)"
    and x: "x \<in> set (patients s)" "p_id x = pid" "p_status x = ''Active''"
    by auto
  show ?thesis
  proof (cases "p_id (patients s ! k) = pid")
    case True
    then have "patients s ! k = x"
      using patient_key[OF assms(2) _ x(1)] x(2) assms(3) by simp
    with x t flag assms(3) YesComplete show ?thesis by (simp add: nth_update_patient)
  next
    case False
    with t assms(3) show ?thesis by (simp add: nth_update_patient)
  qed
qed (use assms(1) unchanged_patients in auto)

lemma patient_keys_step:
  assumes "step s a = Inr t" "distinct (map p_id (patients s))"
  shows "distinct (map p_id (patients t)) \<and> length (patients s) \<le> length (patients t)"
proof (cases a)
  case (Register today name mobile dob reason)
  with register_step[of s today name mobile dob reason t] assms
    next_id_fresh[of "map p_id (patients s)"]
  show ?thesis by auto
next
  case (SaveNotes doctor pid nts)
  with save_notes_step[of s doctor pid nts t] assms show ?thesis
    by (simp add: map_p_id_update)
next
  case (YesComplete session doctor pid)
  with yes_complete_step[of s session doctor pid t] assms show ?thesis
    by (simp add: map_p_id_update)
qed (use assms unchanged_patients in auto)

lemma patient_apply:
  assumes "distinct (map p_id (patients s))" "k < length (patients s)"
  shows "p_id (patients (apply_action s a) ! k) = p_id (patients s ! k) \<and>
     (p_status (patients (apply_action s a) ! k) = p_status (patients s ! k) \<or>
      (p_status (patients s ! k) = ''Active'' \<and>
       p_status (patients (apply_action s a) ! k) = ''Completed'' \<and>
       completes s a (p_id (patients s ! k)))) \<and>
     distinct (map p_id (patients (apply_action s a))) \<and>
     k < length (patients (apply_action s a))"
  using apply_action_cases[of s a] patient_step[of s a "apply_action s a" k]
    patient_keys_step[of s a "apply_action s a"] assms
  by auto

lemma patient_path:
  assumes "distinct (map p_id (patients s))" "k < length (patients s)"
  shows "patient_path_ok k s acts"
  using assms
proof (induction acts arbitrary: s)
  case Nil
  then show ?case by simp
next
  case (Cons a acts)
  from patient_apply[OF Cons.prems, of a] Cons.IH[of "apply_action s a"]
  show ?case by (simp add: Let_def)
qed

lemma completed_stays:
  assumes "distinct (map p_id (patients s))" "k < length (patients s)"
    "p_status (patients s ! k) = ''Completed''"
  shows "p_status (patients (run s acts) ! k) = ''Completed''"
  using assms
proof (induction acts arbitrary: s)
  case Nil
  then show ?case by (simp add: run_def)
next
  case (Cons a acts)
  from patient_apply[OF Cons.prems(1,2), of a] Cons.prems(3)
  have "p_status (patients (apply_action s a) ! k) = ''Completed''"
    and "distinct (map p_id (patients (apply_action s a)))"
    and "k < length (patients (apply_action s a))"
    by auto
  from Cons.IH[OF this(2,3,1)] show ?case by (simp add: run_def)
qed

lemma status_valid_step:
  assumes "step s a = Inr t" "status_valid s"
  shows "status_valid t"
proof (cases a)
  case (Register today name mobile dob reason)
  with register_step[of s today name mobile dob reason t] assms show ?thesis
    by (auto simp: status_valid_def)
next
  case (SaveNotes doctor pid nts)
  with save_notes_step[of s doctor pid nts t] assms show ?thesis
    by (auto simp: status_valid_def update_patient_def list_all_iff)
next
  case (YesComplete session doctor pid)
  with yes_complete_step[of s session doctor pid t] assms show ?thesis
    by (auto simp: status_valid_def update_patient_def list_all_iff)
qed (use assms unchanged_patients in \<open>auto simp: status_valid_def\<close>)

lemma status_valid_run: "status_valid s \<Longrightarrow> status_valid (run s acts)"
proof (induction acts arbitrary: s)
  case Nil
  then show ?case by (simp add: run_def)
next
  case (Cons a acts)
  have "status_valid (apply_action s a)"
    using apply_action_cases[of s a] status_valid_step[of s a "apply_action s a"] Cons.prems
    by auto
  from Cons.IH[OF this] show ?case by (simp add: run_def)
qed

lemma mobiles_step:
  assumes "step s a = Inr t"
  shows "\<exists>ms. map p_mobile (patients t) = map p_mobile (patients s) @ ms"
    and "distinct (map p_mobile (patients s)) \<Longrightarrow> distinct (map p_mobile (patients t))"
proof -
  have "(\<exists>ms. map p_mobile (patients t) = map p_mobile (patients s) @ ms) \<and>
        (distinct (map p_mobile (patients s)) \<longrightarrow> distinct (map p_mobile (patients t)))"
  proof (cases a)
    case (Register today name mobile dob reason)
    with register_step[of s today name mobile dob reason t] assms show ?thesis by auto
  next
    case (SaveNotes doctor pid nts)
    with save_notes_step[of s doctor pid nts t] assms show ?thesis
      by (simp add: map_p_mobile_update)
  next
    case (YesComplete session doctor pid)
    with yes_complete_step[of s session doctor pid t] assms show ?thesis
      by (simp add: map_p_mobile_update)
  qed (use assms unchanged_patients in auto)
  then show "\<exists>ms. map p_mobile (patients t) = map p_mobile (patients s) @ ms"
    and "distinct (map p_mobile (patients s)) \<Longrightarrow> distinct (map p_mobile (patients t))"
    by blast+
qed

lemma mobiles_run:
  "\<exists>ms. map p_mobile (patients (run s acts)) = map p_mobile (patients s) @ ms"
proof (induction acts arbitrary: s)
  case Nil
  then show ?case by (simp add: run_def)
next
  case (Cons a acts)
  obtain ms where 1: "map p_mobile (patients (apply_action s a)) = map p_mobile (patients s) @ ms"
    using apply_action_cases[of s a] mobiles_step(1)[of s a "apply_action s a"] by auto
  obtain ms' where "map p_mobile (patients (run (apply_action s a) acts)) =
      map p_mobile (patients (apply_action s a)) @ ms'"
    using Cons.IH[of "apply_action s a"] by blast
  with 1 show ?case by (simp add: run_def)
qed

lemma mobiles_distinct_run:
  "distinct (map p_mobile (patients s)) \<Longrightarrow> distinct (map p_mobile (patients (run s acts)))"
proof (induction acts arbitrary: s)
  case Nil
  then show ?case by (simp add: run_def)
next
  case (Cons a acts)
  have "distinct (map p_mobile (patients (apply_action s a)))"
    using apply_action_cases[of s a] mobiles_step(2)[of s a "apply_action s a"] Cons.prems
    by auto
  from Cons.IH[OF this] show ?case by (simp add: run_def)
qed

lemma register_duplicate:
  assumes "strip mobile \<in> set (map p_mobile (patients s))"
    and "name \<noteq> []" "mobile \<noteq> []" "reason \<noteq> []" "sub_days today 30 \<noteq> None"
  shows "step s (Register today name mobile (Some dob) reason) = Inl MobileAlreadyRegistered"
proof -
  from assms(1) have "list_ex (\<lambda>p. p_mobile p = strip mobile) (patients s)"
    by (auto simp: list_ex_iff)
  with assms(2-) show ?thesis
    by (auto simp: show_auth_page_register_def split: option.splits)
qed

section \<open>What \<open>strip\<close> removes\<close>

text \<open>
  What \<open>strip\<close> takes away is whitespace at the two ends; what it leaves neither starts nor
  ends with whitespace; and it is the only string so placed in its argument.
\<close>

lemma strip_shape:
  "\<exists>l r. s = l @ strip s @ r \<and> list_all isspace l \<and> list_all isspace r"
proof -
  let ?d = "dropWhile isspace s"
  have 1: "s = takeWhile isspace s @ ?d" by simp
  have "?d = rev (takeWhile isspace (rev ?d) @ dropWhile isspace (rev ?d))"
    by (simp only: takeWhile_dropWhile_id rev_rev_ident)
  also have "\<dots> = rev (dropWhile isspace (rev ?d)) @ rev (takeWhile isspace (rev ?d))"
    by (simp only: rev_append)
  finally have 2: "?d = strip s @ rev (takeWhile isspace (rev ?d))"
    by (simp only: strip_def)
  have 3: "list_all isspace (takeWhile isspace s)"
    by (simp add: list_all_iff) (meson set_takeWhileD)
  have 4: "list_all isspace (rev (takeWhile isspace (rev ?d)))"
    by (simp add: list_all_iff) (meson set_takeWhileD)
  from 1 2 have "s = takeWhile isspace s @ strip s @ rev (takeWhile isspace (rev ?d))"
    by metis
  with 3 4 show ?thesis by blast
qed

lemma strip_ends:
  "strip s \<noteq> [] \<Longrightarrow> \<not> isspace (hd (strip s)) \<and> \<not> isspace (last (strip s))"
proof -
  assume ne: "strip s \<noteq> []"
  let ?d = "dropWhile isspace s"
  let ?e = "dropWhile isspace (rev ?d)"
  from ne have e: "?e \<noteq> []" by (simp add: strip_def)
  then have d: "?d \<noteq> []" by (metis dropWhile.simps(1) rev.simps(1))
  have "last (strip s) = hd ?e" using e by (simp add: strip_def last_rev)
  moreover have "\<not> isspace (hd ?e)" using e by (rule hd_dropWhile)
  moreover have "hd (strip s) = last ?e" using e by (simp add: strip_def hd_rev)
  moreover have "last ?e = last (rev ?d)"
    using e by (metis last_appendR takeWhile_dropWhile_id)
  moreover have "last (rev ?d) = hd ?d" using d by (simp add: last_rev)
  moreover have "\<not> isspace (hd ?d)" using d by (rule hd_dropWhile)
  ultimately show ?thesis by simp
qed

lemma strip_strips_to: "\<exists>l r. strips_to l r s (strip s)"
  using strip_shape[of s] strip_ends[of s] unfolding strips_to_def by blast

lemma dropWhile_all: "list_all P xs \<Longrightarrow> dropWhile P (xs @ ys) = dropWhile P ys"
  by (induction xs) simp_all

lemma strip_core:
  assumes "list_all isspace l" "list_all isspace r"
    and "c = [] \<or> (\<not> isspace (hd c) \<and> \<not> isspace (last c))"
  shows "strip (l @ c @ r) = c"
proof (cases "c = []")
  case True
  have "list_all isspace (l @ r)" using assms(1,2) by simp
  then have "dropWhile isspace ((l @ r) @ []) = dropWhile isspace []"
    by (rule dropWhile_all)
  then have "dropWhile isspace (l @ r) = []" by (simp only: append_Nil2 dropWhile.simps)
  then have "strip (l @ r) = []" by (simp only: strip_def rev.simps dropWhile.simps)
  with True show ?thesis by (simp only: append_Nil)
next
  case False
  with assms(3) have h: "\<not> isspace (hd c)" and t: "\<not> isspace (last c)" by simp_all
  have "dropWhile isspace (l @ c @ r) = dropWhile isspace (c @ r)"
    using assms(1) by (rule dropWhile_all)
  also have "\<dots> = c @ r"
    using False h by (cases c) simp_all
  finally have 1: "dropWhile isspace (l @ c @ r) = c @ r" .
  have "dropWhile isspace (rev (c @ r)) = dropWhile isspace (rev r @ rev c)" by simp
  also have "\<dots> = dropWhile isspace (rev c)"
    using assms(2) by (intro dropWhile_all) (simp add: list_all_iff)
  also have "\<dots> = rev c"
    using False t by (cases "rev c") (simp_all add: last_rev[symmetric] hd_rev)
  finally show ?thesis by (simp add: strip_def 1)
qed

lemma strips_to_strip: "strips_to l r s c \<Longrightarrow> strip s = c"
  unfolding strips_to_def using strip_core[of l r c] by blast

lemma strip_surround:
  assumes "list_all isspace l" "list_all isspace r"
  shows "strip (l @ c @ r) = strip c"
proof -
  obtain l' r' where c: "c = l' @ strip c @ r'" "list_all isspace l'" "list_all isspace r'"
    using strip_shape[of c] by blast
  have e: "strip c = [] \<or> (\<not> isspace (hd (strip c)) \<and> \<not> isspace (last (strip c)))"
    using strip_ends[of c] by blast
  have "l @ c @ r = l @ (l' @ strip c @ r') @ r"
    using c(1) by simp
  then have "l @ c @ r = (l @ l') @ strip c @ (r' @ r)"
    by simp
  moreover have "strip ((l @ l') @ strip c @ (r' @ r)) = strip c"
    using assms c(2,3) e by (intro strip_core) simp_all
  ultimately show ?thesis by (simp only:)
qed

section \<open>The calendar\<close>


















section \<open>The daily cap on doctors\<close>

text \<open>
  Claim C1. No patient has more than two distinct doctors on one date, because every
  operation that creates an assignment is rejected once two are assigned.

  The admin's form enforces the cap; the doctor's ``Add to My Patient List'' checks only
  that the doctor is not yet assigned. In \<open>two_doctors\<close> the patient has Dr. Das and
  Dr. Santra on \<open>day1\<close>: the admin's form refuses Dr. Ghosh, and Dr. Ghosh's own button adds a
  third doctor for that day.
\<close>

theorem doctor_add_exceeds_daily_cap:
  "length (distinct_doctors two_doctors 1 day1) = 2 \<and>
   step two_doctors (Assign day1 1 ''Dr. Ghosh'') = Inl LimitReached \<and>
   length (distinct_doctors
     (apply_action two_doctors (AddToMyPatientList ''Dr. Ghosh'' 1)) 1 day1) = 3"
  by code_simp

section \<open>The date of an assignment\<close>

text \<open>
  Claim C3. An assignment made by the admin is dated the day the admin makes it; one made
  by the doctor from an appointment is dated as the appointment.

  The admin's row takes the column default, which is the day the module was imported. On a
  server started on \<open>day1\<close>, an assignment made on \<open>day2\<close> is dated \<open>day1\<close>.
\<close>

theorem admin_assignment_dated_at_import:
  "map da_assignment_date (doctor_assignments (run (initial_db day1)
      [Register day2 (ustr ''Jane Doe'') (ustr ''9999999999'') (Some day1) (ustr ''fever''),
       Assign day2 1 ''Dr. Das''])) = [day1] \<and> day1 \<noteq> day2"
  by code_simp

section \<open>The life cycle of an appointment\<close>

text \<open>
  Claim C2. The status of an appointment changes only from Scheduled to Cancellation
  Requested (the doctor's request), from Cancellation Requested to Cancelled (the admin's
  approval) and from Cancellation Requested to Scheduled (the admin's denial). Along every
  sequence of operations each step leaves the status of an appointment alone or takes one
  of these edges; a cancelled appointment stays cancelled; a new appointment is Scheduled.
\<close>

theorem appointment_status_transitions:
  assumes "distinct (map a_id (appointments s))" and "k < length (appointments s)"
  shows "status_path_ok k s acts \<and>
         (a_status (appointments s ! k) = ''Cancelled'' \<longrightarrow>
            a_status (appointments (run s acts) ! k) = ''Cancelled'') \<and>
         (step s (Schedule today key doctor d tm reason) = Inr t \<longrightarrow>
            (\<exists>x. appointments t = appointments s @ [x] \<and> a_status x = ''Scheduled''))"
  using status_path[OF assms] cancelled_stays[OF assms]
    schedule_step[of s today key doctor d tm reason t]
  by blast

theorem appointment_status_transitions_witness:
  "distinct (map a_id (appointments two_doctors)) \<and>
   0 < length (appointments two_doctors) \<and>
   status_path_ok 0 two_doctors
     [RequestCancel ''Dr. Ghosh'' 1 ''relocating'', Deny 1,
      RequestCancel ''Dr. Ghosh'' 1 ''leave'', Approve 1, Deny 1] \<and>
   a_status (appointments cancelled_clinic ! 0) = ''Cancelled'' \<and>
   a_status (appointments
     (run cancelled_clinic [Deny 1, RequestCancel ''Dr. Ghosh'' 1 ''leave'']) ! 0) =
     ''Cancelled'' \<and>
   (\<exists>x. appointments (apply_action two_doctors schedule_follow_up) =
          appointments two_doctors @ [x] \<and> a_status x = ''Scheduled'')"
proof -
  have h1: "distinct (map a_id (appointments two_doctors))" by code_simp
  have h2: "0 < length (appointments two_doctors)" by code_simp
  have h3: "distinct (map a_id (appointments cancelled_clinic))" by code_simp
  have h4: "0 < length (appointments cancelled_clinic)" by code_simp
  have h5: "a_status (appointments cancelled_clinic ! 0) = ''Cancelled''" by code_simp
  have h6: "step two_doctors
      (Schedule day1 jane_key ''Dr. Das'' day2 (9, 0) ''follow-up'') =
      Inr (apply_action two_doctors schedule_follow_up)"
    by code_simp
  show ?thesis
    using appointment_status_transitions[OF h1 h2,
        of "[RequestCancel ''Dr. Ghosh'' 1 ''relocating'', Deny 1,
             RequestCancel ''Dr. Ghosh'' 1 ''leave'', Approve 1, Deny 1]"
           day1 jane_key "''Dr. Das''" day2 "(9, 0)" "''follow-up''"
           "apply_action two_doctors schedule_follow_up"]
      appointment_status_transitions[OF h3 h4,
        of "[Deny 1, RequestCancel ''Dr. Ghosh'' 1 ''leave'']"]
      h1 h2 h5 h6
    by blast
qed

section \<open>Asking to cancel\<close>

text \<open>
  Claim C7. A doctor's cancellation request on a scheduled appointment with an empty reason
  is rejected and changes nothing; with a reason that is not empty, the status of the
  appointment becomes Cancellation Requested and its cancellation reason becomes that reason.
\<close>

theorem cancellation_request_needs_reason:
  assumes "get_appointment s i = Some appt"
    and "a_doctor_name appt = doctor_name"
    and "a_status appt = ''Scheduled''"
  shows "step s (RequestCancel doctor_name i []) = Inl ReasonRequired \<and>
         apply_action s (RequestCancel doctor_name i []) = s \<and>
         (reason \<noteq> [] \<longrightarrow>
            (\<exists>t. step s (RequestCancel doctor_name i reason) = Inr t \<and>
                 get_appointment t i =
                   Some (appt\<lparr>a_status := ''Cancellation Requested'',
                              a_cancellation_reason := Some reason\<rparr>)))"
proof -
  have mine: "find (\<lambda>a. a_id a = i) (my_appointments s doctor_name) = Some appt"
    unfolding my_appointments_def
    using assms by (intro find_filter_Some) (simp_all add: get_appointment_def)
  show ?thesis
    using mine assms
    by (simp add: manage_my_appointments_request_cancel_def apply_action_def
        get_appointment_def find_update_appointment)
qed

theorem cancellation_request_needs_reason_witness:
  "get_appointment two_doctors 1 = Some scheduled_appointment \<and>
   a_doctor_name scheduled_appointment = ''Dr. Ghosh'' \<and>
   a_status scheduled_appointment = ''Scheduled'' \<and>
   a_cancellation_reason scheduled_appointment = None \<and>
   step two_doctors (RequestCancel ''Dr. Ghosh'' 1 []) = Inl ReasonRequired \<and>
   apply_action two_doctors (RequestCancel ''Dr. Ghosh'' 1 []) = two_doctors \<and>
   (\<exists>t. step two_doctors (RequestCancel ''Dr. Ghosh'' 1 ''relocating'') = Inr t \<and>
        get_appointment t 1 = Some pending_appointment)"
proof -
  have h1: "get_appointment two_doctors 1 = Some scheduled_appointment" by code_simp
  have h2: "a_doctor_name scheduled_appointment = ''Dr. Ghosh''"
    by (simp add: scheduled_appointment_def)
  have h3: "a_status scheduled_appointment = ''Scheduled''"
    by (simp add: scheduled_appointment_def)
  have h4: "a_cancellation_reason scheduled_appointment = None"
    by (simp add: scheduled_appointment_def)
  have h5: "''relocating'' \<noteq> []" by simp
  show ?thesis
    using cancellation_request_needs_reason[OF h1 h2 h3, of "''relocating''"] h1 h2 h3 h4 h5
    by (simp add: pending_appointment_def)
qed

section \<open>Denying a cancellation request\<close>

text \<open>
  Claim C8. For an appointment whose status is Cancellation Requested, the admin's deny sets
  the status to Scheduled and the cancellation reason to null, and changes no other column
  of the appointment.
\<close>

theorem deny_resets_to_scheduled:
  assumes "get_appointment s i = Some appt"
    and "a_status appt = ''Cancellation Requested''"
  shows "\<exists>t. manage_appointments_deny s i = Inr t \<and>
           get_appointment t i =
             Some (appt\<lparr>a_status := ''Scheduled'', a_cancellation_reason := None\<rparr>)"
proof -
  have "list_ex (\<lambda>a. a_id a = i) (cancellation_requests s)"
    unfolding cancellation_requests_def
    using assms find_Some_list_ex[of "\<lambda>a. a_id a = i" "appointments s" appt
        "\<lambda>a. a_status a = ''Cancellation Requested''"]
    by (simp add: get_appointment_def)
  then show ?thesis
    using assms(1)
    by (simp add: manage_appointments_deny_def get_appointment_def find_update_appointment)
qed

theorem deny_resets_to_scheduled_witness:
  "get_appointment cancellation_pending 1 = Some pending_appointment \<and>
   a_status pending_appointment = ''Cancellation Requested'' \<and>
   (\<exists>t. manage_appointments_deny cancellation_pending 1 = Inr t \<and>
        get_appointment t 1 = Some scheduled_appointment)"
proof -
  have h1: "get_appointment cancellation_pending 1 = Some pending_appointment"
    by code_simp
  have h2: "a_status pending_appointment = ''Cancellation Requested''"
    by (simp add: pending_appointment_def)
  show ?thesis
    using deny_resets_to_scheduled[OF h1 h2] h1 h2
    by (simp add: pending_appointment_def scheduled_appointment_def)
qed

section \<open>The status of a patient\<close>

text \<open>
  Claim C9. The status of every patient is always Active or Completed. The only operation
  that changes it is the doctor's confirmed ``Mark as Completed'', from Active to Completed;
  nothing sets a completed patient back to Active.

  The first part holds in every state the clinic reaches from the empty database; the rest
  holds along every run from every state in which the patient ids are distinct.
\<close>

theorem patient_status_lifecycle:
  "status_valid (run (initial_db import_day) acts0) \<and>
   (distinct (map p_id (patients s)) \<and> k < length (patients s) \<longrightarrow>
      patient_path_ok k s acts \<and>
      (p_status (patients s ! k) = ''Completed'' \<longrightarrow>
         p_status (patients (run s acts) ! k) = ''Completed''))"
  using status_valid_run[of "initial_db import_day" acts0] patient_path[of s k acts]
    completed_stays[of s k acts]
  by (simp add: status_valid_def initial_db_tables)

theorem patient_status_lifecycle_witness:
  "status_valid two_doctors \<and>
   distinct (map p_id (patients two_doctors)) \<and> 0 < length (patients two_doctors) \<and>
   patient_path_ok 0 two_doctors
     [MarkCompleted 7 ''Dr. Das'' 1, SaveNotes ''Dr. Das'' 1 ''rest'',
      YesComplete 7 ''Dr. Das'' 1, MarkCompleted 7 ''Dr. Das'' 1] \<and>
   p_status (patients completed_clinic ! 0) = ''Completed'' \<and>
   p_status (patients (run completed_clinic [register_jane, YesComplete 7 ''Dr. Das'' 1]) ! 0) =
     ''Completed''"
proof -
  have h1: "distinct (map p_id (patients two_doctors))" by code_simp
  have h2: "0 < length (patients two_doctors)" by code_simp
  have h3: "distinct (map p_id (patients completed_clinic))" by code_simp
  have h4: "0 < length (patients completed_clinic)" by code_simp
  have h5: "p_status (patients completed_clinic ! 0) = ''Completed''" by code_simp
  show ?thesis
    using patient_status_lifecycle[of day1
          "[register_jane, Assign day1 1 ''Dr. Das'', Assign day1 1 ''Dr. Santra'',
            Schedule day1 jane_key ''Dr. Ghosh'' day1 (10, 30) ''review'']"
          two_doctors 0
          "[MarkCompleted 7 ''Dr. Das'' 1, SaveNotes ''Dr. Das'' 1 ''rest'',
            YesComplete 7 ''Dr. Das'' 1, MarkCompleted 7 ''Dr. Das'' 1]"]
      patient_status_lifecycle[of day1 "[]" completed_clinic 0
          "[register_jane, YesComplete 7 ''Dr. Das'' 1]"]
      h1 h2 h3 h4 h5
    by (simp add: two_doctors_def)
qed

section \<open>Registration\<close>




text \<open>
  Claim C6. Of two registrations with the same mobile number at most one succeeds: after a
  registration has succeeded, whatever else has happened since, a registration with the same
  mobile number fails as a duplicate and creates no patient. The mobile numbers of the
  stored patients are distinct in every state the clinic reaches.
\<close>

theorem mobile_registered_once:
  assumes "step s (Register today name mobile dob reason) = Inr t"
    and "name2 \<noteq> []" and "reason2 \<noteq> []" and "sub_days today2 30 \<noteq> None"
  shows "step (run t acts) (Register today2 name2 mobile (Some dob2) reason2) =
           Inl MobileAlreadyRegistered \<and>
         apply_action (run t acts) (Register today2 name2 mobile (Some dob2) reason2) =
           run t acts \<and>
         distinct (map p_mobile (patients (run (initial_db import_day) acts0)))"
proof -
  from register_step[OF assms(1)] have in_t: "strip mobile \<in> set (map p_mobile (patients t))"
    and ne: "mobile \<noteq> []"
    by auto
  obtain ms where "map p_mobile (patients (run t acts)) = map p_mobile (patients t) @ ms"
    using mobiles_run[of t acts] by blast
  with in_t have "strip mobile \<in> set (map p_mobile (patients (run t acts)))"
    by simp
  from register_duplicate[OF this assms(2) ne assms(3,4)]
  have rej: "step (run t acts) (Register today2 name2 mobile (Some dob2) reason2) =
           Inl MobileAlreadyRegistered" .
  have "distinct (map p_mobile (patients (run (initial_db import_day) acts0)))"
    by (rule mobiles_distinct_run) (simp add: initial_db_tables)
  with rej rejected_keeps_state[OF rej] show ?thesis by simp
qed

theorem mobile_registered_once_witness:
  "step (initial_db day1)
     (Register day1 (ustr ''Jane Doe'') (ustr ''9999999999'') (Some day1) (ustr ''fever'')) =
     Inr jane_registered \<and>
   sub_days day2 30 \<noteq> None \<and>
   step (run jane_registered [Assign day1 1 ''Dr. Das''])
     (Register day2 (ustr ''John Roe'') (ustr ''9999999999'') (Some too_early) (ustr ''cough'')) =
     Inl MobileAlreadyRegistered \<and>
   apply_action (run jane_registered [Assign day1 1 ''Dr. Das''])
     (Register day2 (ustr ''John Roe'') (ustr ''9999999999'') (Some too_early) (ustr ''cough'')) =
     run jane_registered [Assign day1 1 ''Dr. Das''] \<and>
   distinct (map p_mobile (patients (run (initial_db day1) [register_jane, register_jane])))"
proof -
  have h1: "step (initial_db day1)
      (Register day1 (ustr ''Jane Doe'') (ustr ''9999999999'') (Some day1) (ustr ''fever'')) =
      Inr jane_registered"
    by code_simp
  have h2: "ustr ''John Roe'' \<noteq> []" by (simp add: ustr_def)
  have h3: "ustr ''cough'' \<noteq> []" by (simp add: ustr_def)
  have h4: "sub_days day2 30 \<noteq> None" by code_simp
  show ?thesis
    using mobile_registered_once[OF h1 h2 h3 h4, of "[Assign day1 1 ''Dr. Das'']" too_early
        day1 "[register_jane, register_jane]"] h1 h4
    by simp
qed

text \<open>
  Claim C10. Registration stores the name, the mobile number and the reason to visit with
  leading and trailing whitespace stripped, and looks for a duplicate of the stripped mobile
  number: after a registration has succeeded, one whose mobile number differs from it only
  in surrounding whitespace is rejected as a duplicate.

  Each stored field is the entered one without a run of whitespace at its start and one at
  its end, and neither starts nor ends with whitespace (\<open>strips_to\<close>). Two mobile numbers
  differ only in surrounding whitespace when both are the same string \<open>core\<close> between runs
  of whitespace.
\<close>

theorem registration_strips_whitespace:
  assumes "step s (Register today name mobile dob reason) = Inr t"
    and "mobile = l1 @ core @ r1" and "mobile2 = l2 @ core @ r2"
    and "list_all isspace l1" and "list_all isspace r1"
    and "list_all isspace l2" and "list_all isspace r2"
    and "name2 \<noteq> []" and "mobile2 \<noteq> []" and "reason2 \<noteq> []"
    and "sub_days today2 30 \<noteq> None"
  shows "(\<exists>p. patients t = patients s @ [p] \<and>
              (\<exists>l r. strips_to l r name (p_name p)) \<and>
              (\<exists>l r. strips_to l r mobile (p_mobile p)) \<and>
              (\<exists>l r. strips_to l r reason (p_reason_to_visit p))) \<and>
         step (run t acts) (Register today2 name2 mobile2 (Some dob2) reason2) =
           Inl MobileAlreadyRegistered \<and>
         apply_action (run t acts) (Register today2 name2 mobile2 (Some dob2) reason2) =
           run t acts"
proof -
  from register_step[OF assms(1)] obtain p where p: "patients t = patients s @ [p]"
    "p_name p = strip name" "p_mobile p = strip mobile" "p_reason_to_visit p = strip reason"
    by auto
  have shape: "\<exists>l r. strips_to l r name (p_name p)" "\<exists>l r. strips_to l r mobile (p_mobile p)"
    "\<exists>l r. strips_to l r reason (p_reason_to_visit p)"
    unfolding p by (rule strip_strips_to)+
  have "strip mobile2 = strip core"
    unfolding assms(3) using assms(6,7) by (rule strip_surround)
  also have "\<dots> = strip mobile"
    unfolding assms(2) using assms(4,5) by (rule strip_surround[symmetric])
  finally have in_t: "strip mobile2 \<in> set (map p_mobile (patients t))"
    using p by simp
  obtain ms where "map p_mobile (patients (run t acts)) = map p_mobile (patients t) @ ms"
    using mobiles_run[of t acts] by blast
  with in_t have "strip mobile2 \<in> set (map p_mobile (patients (run t acts)))"
    by simp
  from register_duplicate[OF this assms(8,9,10,11)]
  have rej: "step (run t acts) (Register today2 name2 mobile2 (Some dob2) reason2) =
           Inl MobileAlreadyRegistered" .
  from p(1) shape have "\<exists>p. patients t = patients s @ [p] \<and>
              (\<exists>l r. strips_to l r name (p_name p)) \<and>
              (\<exists>l r. strips_to l r mobile (p_mobile p)) \<and>
              (\<exists>l r. strips_to l r reason (p_reason_to_visit p))"
    by blast
  with rej rejected_keeps_state[OF rej] show ?thesis by simp
qed

theorem registration_strips_whitespace_witness:
  "step (initial_db day1) register_jane_padded = Inr jane_padded_registered \<and>
   list_all isspace [12288, 9] \<and> list_all isspace [32] \<and> list_all isspace [160] \<and>
   sub_days day2 30 \<noteq> None \<and>
   (\<exists>p. patients jane_padded_registered = [p] \<and>
        (\<exists>l r. strips_to l r ([32] @ ustr ''Jane Doe'' @ [8195]) (p_name p)) \<and>
        (\<exists>l r. strips_to l r ([12288, 9] @ ustr ''9999999999'' @ [32]) (p_mobile p)) \<and>
        (\<exists>l r. strips_to l r (ustr ''fever'' @ [10, 10]) (p_reason_to_visit p))) \<and>
   map p_name (patients jane_padded_registered) = [ustr ''Jane Doe''] \<and>
   map p_mobile (patients jane_padded_registered) = [ustr ''9999999999''] \<and>
   map p_reason_to_visit (patients jane_padded_registered) = [ustr ''fever''] \<and>
   step jane_padded_registered register_john = Inl MobileAlreadyRegistered \<and>
   apply_action jane_padded_registered register_john = jane_padded_registered"
proof -
  have h1: "step (initial_db day1)
      (Register day1 ([32] @ ustr ''Jane Doe'' @ [8195])
         ([12288, 9] @ ustr ''9999999999'' @ [32]) (Some day1) (ustr ''fever'' @ [10, 10])) =
      Inr jane_padded_registered"
    by code_simp
  have h2: "[12288, 9] @ ustr ''9999999999'' @ [32] = [12288, 9] @ ustr ''9999999999'' @ [32]"
    by (rule refl)
  have h3: "[160] @ ustr ''9999999999'' = [160] @ ustr ''9999999999'' @ []"
    by simp
  have h4: "list_all isspace [12288, 9]" "list_all isspace [32]" "list_all isspace [160]"
    "list_all isspace []"
    by (simp_all add: isspace_def)
  have h5: "ustr ''John Roe'' \<noteq> []" "[160] @ ustr ''9999999999'' \<noteq> []" "ustr ''cough'' \<noteq> []"
    by (simp_all add: ustr_def)
  have h6: "sub_days day2 30 \<noteq> None" by code_simp
  have h7: "patients (initial_db day1) = []" by (simp add: initial_db_tables)
  have h8: "map p_name (patients jane_padded_registered) = [ustr ''Jane Doe'']"
    "map p_mobile (patients jane_padded_registered) = [ustr ''9999999999'']"
    "map p_reason_to_visit (patients jane_padded_registered) = [ustr ''fever'']"
    by code_simp+
  have r: "step jane_padded_registered register_john = Inl MobileAlreadyRegistered \<and>
      apply_action jane_padded_registered register_john = jane_padded_registered \<and>
      (\<exists>p. patients jane_padded_registered = [p] \<and>
        (\<exists>l r. strips_to l r ([32] @ ustr ''Jane Doe'' @ [8195]) (p_name p)) \<and>
        (\<exists>l r. strips_to l r ([12288, 9] @ ustr ''9999999999'' @ [32]) (p_mobile p)) \<and>
        (\<exists>l r. strips_to l r (ustr ''fever'' @ [10, 10]) (p_reason_to_visit p)))"
    using registration_strips_whitespace[OF h1 h2 h3 h4(1,2,3,4) h5 h6, of "[]" day1]
    unfolding register_john_def run_def h7 foldl.simps append_Nil
    by blast
  show ?thesis
    unfolding register_jane_padded_def
    using r h1 h4(1,2,3) h6 h8
    unfolding register_jane_padded_def
    by blast
qed

section \<open>The metrics of the calendar\<close>




end
